theory Spec2Isabelle
  imports Main "HOL-Library.Sublist"
begin

section \<open>Exceptions and results\<close>

text \<open>
  The Python code distinguishes two classes of exception in its handlers:
  \<^verbatim>\<open>except S3Error\<close> (the storage SDK's class for an error reported by the server)
  and \<^verbatim>\<open>except Exception\<close> (everything else an SDK or library call raises, such as
  a refused connection, an invalid response or an OSError).  The payload is the message.
  A call that may raise returns a sum: \<open>Inl\<close> is the raised exception.  KeyboardInterrupt
  and SystemExit, which are not subclasses of Exception, are signals from outside and not
  failures of a call; they are not modelled.
\<close>

datatype py_exn = S3Error string | OtherException string

type_synonym 'a result = "py_exn + 'a"

section \<open>Paths of the host (os.path)\<close>

datatype host = Posix | Nt

definition slash :: char where
  "slash = CHR ''/''"

definition backslash :: char where
  "backslash = CHR 0x5C"

definition dot :: char where
  "dot = CHR ''.''"

definition sep :: "host \<Rightarrow> char" where
  "sep h = (case h of Posix \<Rightarrow> slash | Nt \<Rightarrow> backslash)"

definition is_sep :: "host \<Rightarrow> char \<Rightarrow> bool" where
  "is_sep h c = (c = slash \<or> (h = Nt \<and> c = backslash))"

text \<open>
  \<^verbatim>\<open>os.path.join(a, b)\<close> for paths without a drive letter: an absolute \<open>b\<close> replaces
  \<open>a\<close>; otherwise the separator of the host is inserted unless \<open>a\<close> is empty or already
  ends with a separator.
\<close>

definition os_path_join :: "host \<Rightarrow> string \<Rightarrow> string \<Rightarrow> string" where
  "os_path_join h a b =
     (if b \<noteq> [] \<and> is_sep h (hd b) then b
      else if a = [] \<or> is_sep h (last a) then a @ b
      else a @ [sep h] @ b)"

text \<open>The non-empty components of a path, split at the separators of the host.\<close>

fun components_aux :: "host \<Rightarrow> string \<Rightarrow> string \<Rightarrow> string list" where
  "components_aux h cur [] = (if cur = [] then [] else [cur])"
| "components_aux h cur (c # cs) =
     (if is_sep h c then (if cur = [] then [] else [cur]) @ components_aux h [] cs
      else components_aux h (cur @ [c]) cs)"

definition components :: "host \<Rightarrow> string \<Rightarrow> string list" where
  "components h p = components_aux h [] p"

fun common_prefix_len :: "string list \<Rightarrow> string list \<Rightarrow> nat" where
  "common_prefix_len (x # xs) (y # ys) = (if x = y then Suc (common_prefix_len xs ys) else 0)"
| "common_prefix_len _ _ = 0"

text \<open>
  \<^verbatim>\<open>os.path.relpath(path, start)\<close> for two paths relative to the same working directory
  that have no drive letter and no \<^verbatim>\<open>.\<close> or \<^verbatim>\<open>..\<close> component: the components of
  \<open>start\<close> that \<open>path\<close> does not share become \<^verbatim>\<open>..\<close>, followed by the rest of \<open>path\<close>,
  joined with the separator of the host.  An empty \<open>path\<close> raises ValueError.
\<close>

definition os_path_relpath :: "host \<Rightarrow> string \<Rightarrow> string \<Rightarrow> string result" where
  "os_path_relpath h path start =
     (if path = [] then Inl (OtherException ''ValueError: no path specified'')
      else
        let start_list = components h start;
            path_list = components h path;
            i = common_prefix_len start_list path_list;
            rel_list = replicate (length start_list - i) ''..'' @ drop i path_list
        in if rel_list = [] then Inr ''.''
           else Inr (foldl (os_path_join h) (hd rel_list) (tl rel_list)))"

text \<open>Python's \<^verbatim>\<open>str.replace\<close> of every backslash by a forward slash.\<close>

definition replace_backslash :: "string \<Rightarrow> string" where
  "replace_backslash s = map (\<lambda>c. if c = backslash then slash else c) s"

section \<open>The local file system\<close>

text \<open>
  A node is a regular file (readable or not, with its size in bytes) or a directory with
  its entries in the order the operating system lists them.  Paths are resolved from the
  entries of the working directory.
\<close>

datatype fnode = RegFile bool nat | Directory "(string \<times> fnode) list"

fun descend :: "fnode \<Rightarrow> string list \<Rightarrow> fnode option" where
  "descend n [] = Some n"
| "descend (RegFile r s) (c # cs) = None"
| "descend (Directory es) (c # cs) =
     (case map_of es c of None \<Rightarrow> None | Some n \<Rightarrow> descend n cs)"

definition lookup :: "host \<Rightarrow> (string \<times> fnode) list \<Rightarrow> string \<Rightarrow> fnode option" where
  "lookup h fs p = (if p = [] then None else descend (Directory fs) (components h p))"

text \<open>
  \<^verbatim>\<open>os.walk(top)\<close>, top-down: one triple (root, directory names, file names) for the
  directory itself, then the triples of each subdirectory, reached as
  \<^verbatim>\<open>os.path.join(top, name)\<close>.
\<close>

fun walk_dir :: "host \<Rightarrow> string \<Rightarrow> (string \<times> fnode) list \<Rightarrow> (string \<times> string list \<times> string list) list"
  and walk_subdirs :: "host \<Rightarrow> string \<Rightarrow> (string \<times> fnode) list \<Rightarrow> (string \<times> string list \<times> string list) list"
  and walk_node :: "host \<Rightarrow> string \<Rightarrow> fnode \<Rightarrow> (string \<times> string list \<times> string list) list"
where
  "walk_dir h root es =
     (root,
      map fst (filter (\<lambda>(n, d). case d of Directory _ \<Rightarrow> True | RegFile _ _ \<Rightarrow> False) es),
      map fst (filter (\<lambda>(n, d). case d of Directory _ \<Rightarrow> False | RegFile _ _ \<Rightarrow> True) es))
     # walk_subdirs h root es"
| "walk_subdirs h root [] = []"
| "walk_subdirs h root ((n, d) # es) =
     walk_node h (os_path_join h root n) d @ walk_subdirs h root es"
| "walk_node h p (RegFile r s) = []"
| "walk_node h p (Directory es) = walk_dir h p es"

section \<open>The world: clock, file system, object store, log\<close>

record date =
  year :: nat
  month :: nat
  day :: nat

text \<open>
  What the program does that can be observed: calls of the storage client, and the records
  it writes to its logger.  The five \<^verbatim>\<open>logger.info\<close> lines that announce an upload are
  one event \<open>LogUploadStart\<close> with the local path, the relative path, the object key and the
  size; output of \<^verbatim>\<open>print\<close> is not recorded.
\<close>

datatype event =
    CallBucketExists string
  | CallMakeBucket string
  | CallFPutObject string string string
  | LogBucketCreated string
  | LogBucketPresent string
  | LogBucketFailed py_exn
  | LogFileInvalid string
  | LogUploadStart string string string nat
  | LogUploadOk string
  | LogUploadS3Failed py_exn
  | LogUploadException py_exn
  | LogBatchStart nat
  | LogBatchDone nat nat
  | LogFailedHeader
  | LogFailedItem string string
  | LogDirMissing string

text \<open>
  The storage client is a black box of three calls.  Each call consumes one entry of
  \<open>faults\<close>: \<open>Some e\<close> makes the call raise \<open>e\<close>, \<open>None\<close> (or an exhausted list) lets it
  succeed.  \<open>digest\<close> is the fixed-length hash of the key derivation, kept abstract.
\<close>

record world =
  host_os :: host
  fs :: "(string \<times> fnode) list"
  clock :: date
  digest :: "string \<Rightarrow> string"
  buckets :: "string list"
  objects :: "(string \<times> string \<times> string) list"
  faults :: "py_exn option list"
  trace :: "event list"

definition emit :: "event \<Rightarrow> world \<Rightarrow> world" where
  "emit e w = w\<lparr>trace := trace w @ [e]\<rparr>"

definition next_fault :: "world \<Rightarrow> py_exn option \<times> world" where
  "next_fault w = (case faults w of [] \<Rightarrow> (None, w) | f # rest \<Rightarrow> (f, w\<lparr>faults := rest\<rparr>))"

definition bucket_exists :: "string \<Rightarrow> world \<Rightarrow> bool result \<times> world" where
  "bucket_exists b w =
     (case next_fault (emit (CallBucketExists b) w) of
        (Some e, w') \<Rightarrow> (Inl e, w')
      | (None, w') \<Rightarrow> (Inr (b \<in> set (buckets w')), w'))"

definition make_bucket :: "string \<Rightarrow> world \<Rightarrow> unit result \<times> world" where
  "make_bucket b w =
     (case next_fault (emit (CallMakeBucket b) w) of
        (Some e, w') \<Rightarrow> (Inl e, w')
      | (None, w') \<Rightarrow> (Inr (), w'\<lparr>buckets := b # buckets w'\<rparr>))"

definition fput_object :: "string \<Rightarrow> string \<Rightarrow> string \<Rightarrow> world \<Rightarrow> unit result \<times> world" where
  "fput_object b object_name file_path w =
     (case next_fault (emit (CallFPutObject b object_name file_path) w) of
        (Some e, w') \<Rightarrow> (Inl e, w')
      | (None, w') \<Rightarrow> (Inr (), w'\<lparr>objects := objects w' @ [(b, object_name, file_path)]\<rparr>))"

definition os_path_exists :: "world \<Rightarrow> string \<Rightarrow> bool" where
  "os_path_exists w p = (lookup (host_os w) (fs w) p \<noteq> None)"

definition os_path_isdir :: "world \<Rightarrow> string \<Rightarrow> bool" where
  "os_path_isdir w p =
     (case lookup (host_os w) (fs w) p of Some (Directory _) \<Rightarrow> True | _ \<Rightarrow> False)"

definition os_walk :: "world \<Rightarrow> string \<Rightarrow> (string \<times> string list \<times> string list) list" where
  "os_walk w start =
     (case lookup (host_os w) (fs w) start of
        Some (Directory es) \<Rightarrow> walk_dir (host_os w) start es
      | _ \<Rightarrow> [])"

section \<open>Helpers of the absent module utils\<close>

text \<open>
  Modelled from the spec: \<^verbatim>\<open>validate_file_path\<close> of the module \<^verbatim>\<open>utils\<close>, which is
  not among the sources.  The spec: "validates localPath exists and is a readable regular
  file".
\<close>

definition validate_file_path :: "world \<Rightarrow> string \<Rightarrow> bool" where
  "validate_file_path w p =
     (case lookup (host_os w) (fs w) p of Some (RegFile readable _) \<Rightarrow> readable | _ \<Rightarrow> False)"

text \<open>
  Modelled from the spec: \<^verbatim>\<open>get_file_size\<close> of the module \<^verbatim>\<open>utils\<close>.  Its value
  only goes into a log line; on a path that is not a regular file it raises (OSError).
\<close>

definition get_file_size :: "world \<Rightarrow> string \<Rightarrow> nat result" where
  "get_file_size w p =
     (case lookup (host_os w) (fs w) p of
        Some (RegFile _ n) \<Rightarrow> Inr n
      | _ \<Rightarrow> Inl (OtherException ''OSError''))"

subsection \<open>Key derivation (KeyCodec)\<close>

text \<open>
  Modelled from the spec: \<^verbatim>\<open>generate_minio_object_key\<close> of the module \<^verbatim>\<open>utils\<close>,
  the spec's \<open>ComputeObjectKey(basePrefix, relativePath, now)\<close>.  The spec: normalise the
  separators of the relative path to forward slashes; the partition segment is the date as
  YYYYMMDD; the file name is the hash of the normalised relative path, with the original
  extension if present; the key joins the base prefix (omitted when empty), the partition
  and the name.
\<close>

definition digit_char :: "nat \<Rightarrow> char" where
  "digit_char d = ''0123456789'' ! (d mod 10)"

fun decimal :: "nat \<Rightarrow> string" where
  "decimal n = (if n < 10 then [digit_char n] else decimal (n div 10) @ [digit_char n])"

definition zfill :: "nat \<Rightarrow> string \<Rightarrow> string" where
  "zfill k s = replicate (k - length s) (CHR ''0'') @ s"

definition YYYYMMDD :: "date \<Rightarrow> string" where
  "YYYYMMDD d = zfill 4 (decimal (year d)) @ zfill 2 (decimal (month d)) @ zfill 2 (decimal (day d))"

definition normalize_separators :: "string \<Rightarrow> string" where
  "normalize_separators p = map (\<lambda>c. if c = backslash then slash else c) p"

definition basename :: "string \<Rightarrow> string" where
  "basename p = rev (takeWhile (\<lambda>c. c \<noteq> slash) (rev p))"

definition extension :: "string \<Rightarrow> string" where
  "extension p =
     (let b = basename p
      in if dot \<in> set b then dot # rev (takeWhile (\<lambda>c. c \<noteq> dot) (rev b)) else [])"

fun key_join :: "string list \<Rightarrow> string" where
  "key_join [] = []"
| "key_join [s] = s"
| "key_join (s # t # rest) = s @ [slash] @ key_join (t # rest)"

definition ComputeObjectKey :: "(string \<Rightarrow> string) \<Rightarrow> string \<Rightarrow> string \<Rightarrow> date \<Rightarrow> string" where
  "ComputeObjectKey H basePrefix relativePath now =
     (let normalized = normalize_separators relativePath;
          partitionDate = YYYYMMDD now;
          hashedName = H normalized @ extension normalized
      in key_join ((if basePrefix = [] then [] else [basePrefix]) @ [partitionDate, hashedName]))"

text \<open>
  The call of the source has two arguments: the date is today's, read from the clock.
\<close>

definition generate_minio_object_key :: "string \<Rightarrow> string \<Rightarrow> world \<Rightarrow> string \<times> world" where
  "generate_minio_object_key base_upload_path relative_path w =
     (ComputeObjectKey (digest w) base_upload_path relative_path (clock w), w)"

section \<open>MinIOFileUploader\<close>

record uploader =
  bucket_name :: string
  base_upload_path :: string

subsection \<open>ensure\_bucket\_exists\<close>

definition ensure_bucket_try :: "uploader \<Rightarrow> world \<Rightarrow> bool result \<times> world" where
  "ensure_bucket_try self w =
     (case bucket_exists (bucket_name self) w of
        (Inl e, w1) \<Rightarrow> (Inl e, w1)
      | (Inr found, w1) \<Rightarrow>
          if \<not> found then
            (case make_bucket (bucket_name self) w1 of
               (Inl e, w2) \<Rightarrow> (Inl e, w2)
             | (Inr _, w2) \<Rightarrow> (Inr True, emit (LogBucketCreated (bucket_name self)) w2))
          else (Inr True, emit (LogBucketPresent (bucket_name self)) w1))"

definition ensure_bucket_exists :: "uploader \<Rightarrow> world \<Rightarrow> bool result \<times> world" where
  "ensure_bucket_exists self w =
     (case ensure_bucket_try self w of
        (Inl (S3Error m), w') \<Rightarrow> (Inr False, emit (LogBucketFailed (S3Error m)) w')
      | (Inl (OtherException m), w') \<Rightarrow> (Inl (OtherException m), w')
      | (Inr b, w') \<Rightarrow> (Inr b, w'))"

subsection \<open>upload\_file\<close>

definition upload_file_try :: "uploader \<Rightarrow> string \<Rightarrow> string \<Rightarrow> world \<Rightarrow> bool result \<times> world" where
  "upload_file_try self local_file_path relative_path w =
     (if \<not> validate_file_path w local_file_path then
        (Inr False, emit (LogFileInvalid local_file_path) w)
      else
        case generate_minio_object_key (base_upload_path self) relative_path w of
          (object_key, w1) \<Rightarrow>
            (case get_file_size w1 local_file_path of
               Inl e \<Rightarrow> (Inl e, w1)
             | Inr file_size \<Rightarrow>
                 (case fput_object (bucket_name self) object_key local_file_path
                         (emit (LogUploadStart local_file_path relative_path object_key file_size) w1) of
                    (Inl e, w2) \<Rightarrow> (Inl e, w2)
                  | (Inr _, w2) \<Rightarrow> (Inr True, emit (LogUploadOk object_key) w2))))"

definition upload_file :: "uploader \<Rightarrow> string \<Rightarrow> string \<Rightarrow> world \<Rightarrow> bool result \<times> world" where
  "upload_file self local_file_path relative_path w =
     (case upload_file_try self local_file_path relative_path w of
        (Inl (S3Error m), w') \<Rightarrow> (Inr False, emit (LogUploadS3Failed (S3Error m)) w')
      | (Inl (OtherException m), w') \<Rightarrow> (Inr False, emit (LogUploadException (OtherException m)) w')
      | (Inr b, w') \<Rightarrow> (Inr b, w'))"

subsection \<open>upload\_files\_batch\<close>

record batch_result =
  total :: nat
  success :: nat
  failed :: nat
  failed_files :: "(string \<times> string) list"

text \<open>The \<^verbatim>\<open>for\<close> loop over the mappings, updating the dictionary of results.\<close>

fun batch_loop :: "uploader \<Rightarrow> (string \<times> string) list \<Rightarrow> batch_result \<Rightarrow> world \<Rightarrow> batch_result result \<times> world" where
  "batch_loop self [] results w = (Inr results, w)"
| "batch_loop self ((local_path, relative_path) # rest) results w =
     (case upload_file self local_path relative_path w of
        (Inl e, w') \<Rightarrow> (Inl e, w')
      | (Inr True, w') \<Rightarrow> batch_loop self rest (results\<lparr>success := success results + 1\<rparr>) w'
      | (Inr False, w') \<Rightarrow>
          batch_loop self rest
            (results\<lparr>failed := failed results + 1,
                     failed_files := failed_files results @ [(local_path, relative_path)]\<rparr>) w')"

definition log_failures :: "batch_result \<Rightarrow> world \<Rightarrow> world" where
  "log_failures results w =
     (if failed results > 0 then
        foldl (\<lambda>w' (local_path, relative_path). emit (LogFailedItem local_path relative_path) w')
          (emit LogFailedHeader w) (failed_files results)
      else w)"

definition upload_files_batch :: "uploader \<Rightarrow> (string \<times> string) list \<Rightarrow> world \<Rightarrow> batch_result result \<times> world" where
  "upload_files_batch self file_mappings w =
     (let results = \<lparr>total = length file_mappings, success = 0, failed = 0, failed_files = []\<rparr>
      in case batch_loop self file_mappings results (emit (LogBatchStart (total results)) w) of
           (Inl e, w') \<Rightarrow> (Inl e, w')
         | (Inr results', w') \<Rightarrow>
             (Inr results', log_failures results' (emit (LogBatchDone (success results') (failed results')) w')))"

subsection \<open>upload\_directory\<close>

text \<open>The inner loop over the files of one directory, appending to the mappings.\<close>

fun files_loop :: "host \<Rightarrow> string \<Rightarrow> string \<Rightarrow> string \<Rightarrow> string list \<Rightarrow> (string \<times> string) list \<Rightarrow> (string \<times> string) list result" where
  "files_loop h directory_path base_relative_path root [] file_mappings = Inr file_mappings"
| "files_loop h directory_path base_relative_path root (file # files) file_mappings =
     (let local_path = os_path_join h root file
      in case os_path_relpath h local_path directory_path of
           Inl e \<Rightarrow> Inl e
         | Inr rel_path \<Rightarrow>
             let rel_path' =
                   (if base_relative_path \<noteq> [] then
                      replace_backslash (os_path_join h base_relative_path rel_path)
                    else rel_path)
             in files_loop h directory_path base_relative_path root files
                  (file_mappings @ [(local_path, rel_path')]))"

text \<open>The outer loop over the triples of \<^verbatim>\<open>os.walk\<close>.\<close>

fun walk_loop :: "host \<Rightarrow> string \<Rightarrow> string \<Rightarrow> (string \<times> string list \<times> string list) list \<Rightarrow> (string \<times> string) list \<Rightarrow> (string \<times> string) list result" where
  "walk_loop h directory_path base_relative_path [] file_mappings = Inr file_mappings"
| "walk_loop h directory_path base_relative_path ((root, dirs, files) # rest) file_mappings =
     (case files_loop h directory_path base_relative_path root files file_mappings of
        Inl e \<Rightarrow> Inl e
      | Inr file_mappings' \<Rightarrow> walk_loop h directory_path base_relative_path rest file_mappings')"

definition collect_mappings :: "world \<Rightarrow> string \<Rightarrow> string \<Rightarrow> (string \<times> string) list result" where
  "collect_mappings w directory_path base_relative_path =
     walk_loop (host_os w) directory_path base_relative_path (os_walk w directory_path) []"

definition upload_directory :: "uploader \<Rightarrow> string \<Rightarrow> string \<Rightarrow> world \<Rightarrow> batch_result result \<times> world" where
  "upload_directory self directory_path base_relative_path w =
     (if \<not> os_path_isdir w directory_path then
        (Inr \<lparr>total = 0, success = 0, failed = 0, failed_files = []\<rparr>,
         emit (LogDirMissing directory_path) w)
      else
        case collect_mappings w directory_path base_relative_path of
          Inl e \<Rightarrow> (Inl e, w)
        | Inr file_mappings \<Rightarrow> upload_files_batch self file_mappings w)"

section \<open>The command line (main.py)\<close>

datatype mode = Single | Batch | DirectoryMode

text \<open>
  The parsed arguments (\<open>file_arg\<close> is \<^verbatim>\<open>args.file\<close>).  An option that was not given is
  \<open>None\<close>; Python's
  \<^verbatim>\<open>not args.file\<close> holds for \<open>None\<close> and for the empty string or list.
\<close>

record args =
  mode :: mode
  file_arg :: "string option"
  relative :: "string option"
  directory :: "string option"
  base_relative :: string
  files :: "string list option"

definition absent :: "'a list option \<Rightarrow> bool" where
  "absent a = (case a of None \<Rightarrow> True | Some v \<Rightarrow> v = [])"

definition upload_single_file :: "uploader \<Rightarrow> string \<Rightarrow> string \<Rightarrow> world \<Rightarrow> bool result \<times> world" where
  "upload_single_file up file_path relative_path w = upload_file up file_path relative_path w"

definition upload_multiple_files :: "uploader \<Rightarrow> (string \<times> string) list \<Rightarrow> world \<Rightarrow> bool result \<times> world" where
  "upload_multiple_files up file_mappings w =
     (case upload_files_batch up file_mappings w of
        (Inl e, w') \<Rightarrow> (Inl e, w')
      | (Inr results, w') \<Rightarrow> (Inr (failed results = 0), w'))"

definition upload_directory_cli :: "uploader \<Rightarrow> string \<Rightarrow> string \<Rightarrow> world \<Rightarrow> bool result \<times> world" where
  "upload_directory_cli up dir_path base w =
     (case upload_directory up dir_path base w of
        (Inl e, w') \<Rightarrow> (Inl e, w')
      | (Inr results, w') \<Rightarrow> (Inr (failed results = 0), w'))"

text \<open>
  \<^verbatim>\<open>local_path, relative_path = file_mapping.split(':', 1)\<close>: without a colon the
  unpacking raises ValueError, here \<open>None\<close>.
\<close>

definition split_colon :: "string \<Rightarrow> (string \<times> string) option" where
  "split_colon s =
     (if CHR '':'' \<in> set s
      then Some (takeWhile (\<lambda>c. c \<noteq> CHR '':'') s, tl (dropWhile (\<lambda>c. c \<noteq> CHR '':'') s))
      else None)"

text \<open>
  The loop of batch mode over \<^verbatim>\<open>args.files\<close>.  \<open>None\<close>: an entry had no colon and
  \<^verbatim>\<open>main\<close> returns False at once.
\<close>

fun parse_files :: "world \<Rightarrow> string list \<Rightarrow> (string \<times> string) list \<Rightarrow> (string \<times> string) list option" where
  "parse_files w [] file_mappings = Some file_mappings"
| "parse_files w (file_mapping # rest) file_mappings =
     (case split_colon file_mapping of
        None \<Rightarrow> None
      | Some (local_path, relative_path) \<Rightarrow>
          if \<not> os_path_exists w local_path then parse_files w rest file_mappings
          else parse_files w rest (file_mappings @ [(local_path, relative_path)]))"

text \<open>
  The body of the \<^verbatim>\<open>try\<close> of \<^verbatim>\<open>main\<close>.  \<open>init\<close> is the outcome of the constructor
  \<^verbatim>\<open>MinIOFileUploader()\<close>, which builds the client from the configuration and may raise.
\<close>

definition main_try :: "uploader result \<Rightarrow> args \<Rightarrow> world \<Rightarrow> bool result \<times> world" where
  "main_try init a w =
     (case init of
        Inl e \<Rightarrow> (Inl e, w)
      | Inr up \<Rightarrow>
         (case ensure_bucket_exists up w of
            (Inl e, w1) \<Rightarrow> (Inl e, w1)
          | (Inr False, w1) \<Rightarrow> (Inr False, w1)
          | (Inr True, w1) \<Rightarrow>
             (case mode a of
                Single \<Rightarrow>
                  if absent (file_arg a) \<or> absent (relative a) then (Inr False, w1)
                  else if \<not> os_path_exists w1 (the (file_arg a)) then (Inr False, w1)
                  else upload_single_file up (the (file_arg a)) (the (relative a)) w1
              | Batch \<Rightarrow>
                  if absent (files a) then (Inr False, w1)
                  else (case parse_files w1 (the (files a)) [] of
                          None \<Rightarrow> (Inr False, w1)
                        | Some file_mappings \<Rightarrow>
                            if file_mappings = [] then (Inr False, w1)
                            else upload_multiple_files up file_mappings w1)
              | DirectoryMode \<Rightarrow>
                  if absent (directory a) then (Inr False, w1)
                  else if \<not> os_path_isdir w1 (the (directory a)) then (Inr False, w1)
                  else upload_directory_cli up (the (directory a)) (base_relative a) w1)))"

text \<open>\<^verbatim>\<open>except Exception\<close>: any exception becomes the result False.\<close>

definition main :: "uploader result \<Rightarrow> args \<Rightarrow> world \<Rightarrow> bool \<times> world" where
  "main init a w =
     (case main_try init a w of
        (Inl e, w') \<Rightarrow> (False, w')
      | (Inr b, w') \<Rightarrow> (b, w'))"

text \<open>\<^verbatim>\<open>sys.exit(0 if success else 1)\<close>\<close>

definition exit_code :: "bool \<Rightarrow> nat" where
  "exit_code ok = (if ok then 0 else 1)"

section \<open>Observing a run\<close>

text \<open>The events appended to the trace between two worlds of one run.\<close>

definition events_since :: "world \<Rightarrow> world \<Rightarrow> event list" where
  "events_since w w' = drop (length (trace w)) (trace w')"

definition is_call :: "event \<Rightarrow> bool" where
  "is_call e =
     (case e of
        CallBucketExists _ \<Rightarrow> True
      | CallMakeBucket _ \<Rightarrow> True
      | CallFPutObject _ _ _ \<Rightarrow> True
      | _ \<Rightarrow> False)"

text \<open>
  Every call of \<^verbatim>\<open>upload_file\<close> first logs either that the local file is not valid or
  that the upload starts; the local paths of these records, in order, are the attempts.
\<close>

fun attempt_of :: "event \<Rightarrow> string list" where
  "attempt_of (LogFileInvalid l) = [l]"
| "attempt_of (LogUploadStart l r k n) = [l]"
| "attempt_of _ = []"

definition attempted :: "event list \<Rightarrow> string list" where
  "attempted evs = concat (map attempt_of evs)"

text \<open>
  The value returned by each call of \<^verbatim>\<open>upload_file\<close> in the loop of
  \<^verbatim>\<open>upload_files_batch\<close>, each call starting in the world the previous one left.
\<close>

fun outcomes :: "uploader \<Rightarrow> (string \<times> string) list \<Rightarrow> world \<Rightarrow> bool list" where
  "outcomes self [] w = []"
| "outcomes self ((local_path, relative_path) # rest) w =
     (case upload_file self local_path relative_path w of
        (Inl e, w') \<Rightarrow> []
      | (Inr b, w') \<Rightarrow> b # outcomes self rest w')"

text \<open>
  The aggregation as the spec words it (ResultReport): from the sequence of outcomes, the
  count, the number of successes, the number of failures and the failed items in order.
\<close>

definition ResultReport :: "((string \<times> string) \<times> bool) list \<Rightarrow> batch_result" where
  "ResultReport os =
     \<lparr>total = length os,
      success = length (filter (\<lambda>out. snd out) os),
      failed = length (filter (\<lambda>out. \<not> snd out) os),
      failed_files = map fst (filter (\<lambda>out. \<not> snd out) os)\<rparr>"

section \<open>Shapes and selections used in the statements\<close>

text \<open>
  A decimal digit; a calendar date as Python's \<^verbatim>\<open>datetime\<close> admits it (years 1 to 9999).
\<close>

definition is_digit :: "char \<Rightarrow> bool" where
  "is_digit c = (c \<in> set ''0123456789'')"

definition valid_date :: "date \<Rightarrow> bool" where
  "valid_date d = (1 \<le> year d \<and> year d \<le> 9999 \<and> 1 \<le> month d \<and> month d \<le> 12 \<and> 1 \<le> day d \<and> day d \<le> 31)"

text \<open>
  The entries of \<^verbatim>\<open>--files\<close> whose local path exists, split at the first colon, in the
  order given.
\<close>

definition kept_mappings :: "world \<Rightarrow> string list \<Rightarrow> (string \<times> string) list" where
  "kept_mappings w fl =
     filter (\<lambda>(local_path, relative_path). os_path_exists w local_path)
       (map (\<lambda>f. the (split_colon f)) fl)"

section \<open>A concrete world\<close>

text \<open>
  A small file system, an object store that already has the bucket, no scripted fault and
  an empty trace, on either host.  \<open>example_digest\<close> stands in for the hash.
\<close>

definition example_date :: date where
  "example_date = \<lparr>year = 2025, month = 9, day = 4\<rparr>"

definition example_digest :: "string \<Rightarrow> string" where
  "example_digest s = ''h'' @ decimal (length s)"

definition example_fs :: "(string \<times> fnode) list" where
  "example_fs =
     [(''data'', Directory [(''a.pdf'', RegFile True 3),
                            (''sub'', Directory [(''f.txt'', RegFile True 1)])]),
      (''one.txt'', RegFile True 10),
      (''three.txt'', RegFile True 30)]"

definition example_world :: "host \<Rightarrow> world" where
  "example_world h =
     \<lparr>host_os = h, fs = example_fs, clock = example_date, digest = example_digest,
      buckets = [''data''], objects = [], faults = [], trace = []\<rparr>"

definition example_uploader :: uploader where
  "example_uploader = \<lparr>bucket_name = ''data'', base_upload_path = []\<rparr>"

definition example_batch_args :: args where
  "example_batch_args =
     \<lparr>mode = Batch, file_arg = None, relative = None, directory = None, base_relative = [],
      files = Some [''one.txt:docs/one.txt'', ''two.txt:docs/two.txt'']\<rparr>"

section \<open>Basic facts\<close>

declare decimal.simps [simp del]

lemma trace_emit [simp]: "trace (emit e w) = trace w @ [e]"
  by (simp add: emit_def)

lemma emit_fields [simp]:
  "host_os (emit e w) = host_os w" "fs (emit e w) = fs w" "clock (emit e w) = clock w"
  "digest (emit e w) = digest w" "buckets (emit e w) = buckets w"
  "objects (emit e w) = objects w" "faults (emit e w) = faults w"
  by (simp_all add: emit_def)

lemmas path_defs = lookup_def components_def is_sep_def slash_def backslash_def sep_def dot_def

lemmas world_defs = example_world_def example_fs_def example_uploader_def example_date_def
  example_digest_def

lemmas gateway_defs = bucket_exists_def make_bucket_def fput_object_def next_fault_def emit_def

lemmas uploader_defs = ensure_bucket_exists_def ensure_bucket_try_def upload_file_def
  upload_file_try_def validate_file_path_def get_file_size_def generate_minio_object_key_def

lemma next_fault_trace [simp]: "trace (snd (next_fault w)) = trace w"
  by (cases "faults w") (simp_all add: next_fault_def)

lemma next_fault_buckets [simp]: "buckets (snd (next_fault w)) = buckets w"
  by (cases "faults w") (simp_all add: next_fault_def)

lemma next_fault_env [simp]:
  "fs (snd (next_fault w)) = fs w" "host_os (snd (next_fault w)) = host_os w"
  "clock (snd (next_fault w)) = clock w" "digest (snd (next_fault w)) = digest w"
  by (cases "faults w"; simp add: next_fault_def)+

lemma validate_size: "validate_file_path w l \<Longrightarrow> \<exists>n. get_file_size w l = Inr n"
  by (auto simp: validate_file_path_def get_file_size_def split: option.splits fnode.splits)

subsection \<open>upload\_file\<close>

lemma upload_file_returns: "\<exists>b. fst (upload_file self l r w) = Inr b"
  by (auto simp: upload_file_def upload_file_try_def generate_minio_object_key_def
      fput_object_def split: prod.splits sum.splits py_exn.splits option.splits if_splits)

lemma upload_file_cases:
  obtains b w' where "upload_file self l r w = (Inr b, w')"
  using upload_file_returns [of self l r w] by (cases "upload_file self l r w") auto

lemma upload_file_invalid:
  "\<not> validate_file_path w l \<Longrightarrow> upload_file self l r w = (Inr False, emit (LogFileInvalid l) w)"
  by (simp add: upload_file_def upload_file_try_def)

lemma upload_file_trace:
  "\<exists>evs. trace (snd (upload_file self l r w)) = trace w @ evs \<and> attempted evs = [l]"
proof (cases "validate_file_path w l")
  case False
  then show ?thesis by (simp add: upload_file_invalid attempted_def)
next
  case True
  then obtain n where n: "get_file_size w l = Inr n" using validate_size by blast
  show ?thesis
    using True n
    by (cases "faults w")
       (auto simp: upload_file_def upload_file_try_def generate_minio_object_key_def
          fput_object_def next_fault_def emit_def attempted_def
          split: option.splits py_exn.splits)
qed

lemma upload_file_env:
  "fs (snd (upload_file self l r w)) = fs w \<and> host_os (snd (upload_file self l r w)) = host_os w"
proof (cases "validate_file_path w l")
  case False
  then show ?thesis by (simp add: upload_file_invalid)
next
  case True
  then obtain n where n: "get_file_size w l = Inr n" using validate_size by blast
  show ?thesis
    using True n
    by (cases "faults w")
       (auto simp: upload_file_def upload_file_try_def generate_minio_object_key_def
          fput_object_def next_fault_def emit_def
          split: option.splits py_exn.splits)
qed

lemma upload_file_ok:
  assumes "validate_file_path w l" and "set (take 1 (faults w)) \<subseteq> {None}"
  shows "fst (upload_file self l r w) = Inr True \<and> faults (snd (upload_file self l r w)) = tl (faults w)"
proof -
  obtain n where n: "get_file_size w l = Inr n" using assms(1) validate_size by blast
  show ?thesis
    using assms n
    by (cases "faults w")
       (auto simp: upload_file_def upload_file_try_def generate_minio_object_key_def
          fput_object_def next_fault_def emit_def
          split: option.splits py_exn.splits)
qed

lemma upload_file_fault:
  assumes "validate_file_path w l" and "faults w = Some e # rest"
  shows "fst (upload_file self l r w) = Inr False
     \<and> last (trace (snd (upload_file self l r w))) =
         (case e of S3Error m \<Rightarrow> LogUploadS3Failed e | OtherException m \<Rightarrow> LogUploadException e)"
proof -
  obtain n where n: "get_file_size w l = Inr n" using assms(1) validate_size by blast
  show ?thesis
    using assms n
    by (cases e)
       (auto simp: upload_file_def upload_file_try_def generate_minio_object_key_def
          fput_object_def next_fault_def emit_def
          split: option.splits py_exn.splits)
qed

section \<open>Aggregation of a batch\<close>

lemma outcomes_length: "length (outcomes self items w) = length items"
proof (induction items arbitrary: w)
  case Nil
  show ?case by simp
next
  case (Cons it items)
  obtain l r where it: "it = (l, r)" by (cases it)
  obtain b w' where u: "upload_file self l r w = (Inr b, w')" by (rule upload_file_cases)
  show ?case using Cons.IH [of w'] by (simp add: it u)
qed

lemma batch_loop_acc:
  "\<exists>w'. batch_loop self items acc w =
     (Inr (acc\<lparr>success := success acc + length (filter (\<lambda>out. snd out) (zip items (outcomes self items w))),
               failed := failed acc + length (filter (\<lambda>out. \<not> snd out) (zip items (outcomes self items w))),
               failed_files := failed_files acc
                  @ map fst (filter (\<lambda>out. \<not> snd out) (zip items (outcomes self items w)))\<rparr>), w')"
proof (induction items arbitrary: acc w)
  case Nil
  show ?case by simp
next
  case (Cons it items)
  obtain l r where it: "it = (l, r)" by (cases it)
  obtain b w' where u: "upload_file self l r w = (Inr b, w')" by (rule upload_file_cases)
  show ?case
  proof (cases b)
    case True
    from Cons.IH [of "acc\<lparr>success := success acc + 1\<rparr>" w']
    show ?thesis by (simp add: it u True)
  next
    case False
    from Cons.IH [of "acc\<lparr>failed := failed acc + 1, failed_files := failed_files acc @ [(l, r)]\<rparr>" w']
    show ?thesis by (simp add: it u False)
  qed
qed

lemma upload_files_batch_report:
  "fst (upload_files_batch self items w) =
     Inr (ResultReport (zip items (outcomes self items (emit (LogBatchStart (length items)) w))))
   \<and> length (outcomes self items (emit (LogBatchStart (length items)) w)) = length items"
proof -
  let ?init = "\<lparr>total = length items, success = 0, failed = 0, failed_files = []\<rparr>"
  let ?w = "emit (LogBatchStart (length items)) w"
  obtain w' where "batch_loop self items ?init ?w =
     (Inr (?init\<lparr>success := success ?init + length (filter (\<lambda>out. snd out) (zip items (outcomes self items ?w))),
               failed := failed ?init + length (filter (\<lambda>out. \<not> snd out) (zip items (outcomes self items ?w))),
               failed_files := failed_files ?init
                  @ map fst (filter (\<lambda>out. \<not> snd out) (zip items (outcomes self items ?w)))\<rparr>), w')"
    using batch_loop_acc [of self items ?init ?w] by blast
  then show ?thesis
    by (simp add: upload_files_batch_def ResultReport_def outcomes_length)
qed

text \<open>
  C5: for every sequence of items and every world, the result of \<open>upload_files_batch\<close> is
  the aggregation of the per-item outcomes of its loop: \<open>total\<close> is the number of items,
  \<open>success\<close> the number of calls of \<open>upload_file\<close> that returned True, \<open>failed\<close> the number
  that returned False, and \<open>failed_files\<close> the failed (local path, relative path) pairs in
  the order met; and every item has an outcome.
\<close>

theorem upload_files_batch_aggregates:
  "fst (upload_files_batch self items w) =
     Inr (ResultReport (zip items (outcomes self items (emit (LogBatchStart (length items)) w))))
   \<and> length (outcomes self items (emit (LogBatchStart (length items)) w)) = length items"
  by (rule upload_files_batch_report)

section \<open>Isolation of the items of a batch\<close>

lemma batch_loop_trace:
  "\<exists>evs. trace (snd (batch_loop self items acc w)) = trace w @ evs \<and> attempted evs = map fst items"
proof (induction items arbitrary: acc w)
  case Nil
  show ?case by (simp add: attempted_def)
next
  case (Cons it items)
  obtain l r where it: "it = (l, r)" by (cases it)
  obtain b w' where u: "upload_file self l r w = (Inr b, w')" by (rule upload_file_cases)
  obtain evs where evs: "trace w' = trace w @ evs" "attempted evs = [l]"
    using upload_file_trace [of self l r w] by (auto simp: u)
  let ?acc' = "if b then acc\<lparr>success := success acc + 1\<rparr>
               else acc\<lparr>failed := failed acc + 1, failed_files := failed_files acc @ [(l, r)]\<rparr>"
  obtain evs' where evs': "trace (snd (batch_loop self items ?acc' w')) = trace w' @ evs'"
      "attempted evs' = map fst items"
    using Cons.IH [of ?acc' w'] by blast
  have "batch_loop self (it # items) acc w = batch_loop self items ?acc' w'"
    by (cases b) (simp_all add: it u)
  then have "trace (snd (batch_loop self (it # items) acc w)) = trace w @ (evs @ evs')"
    by (simp add: evs' evs)
  moreover have "attempted (evs @ evs') = map fst (it # items)"
    using evs evs' by (simp add: attempted_def it)
  ultimately show ?case by blast
qed

lemma log_failures_trace:
  "\<exists>evs. trace (log_failures res w) = trace w @ evs \<and> attempted evs = []"
proof -
  have "\<exists>evs. trace (foldl (\<lambda>w' (local_path, relative_path). emit (LogFailedItem local_path relative_path) w') w0 xs)
          = trace w0 @ evs \<and> attempted evs = []" for xs w0
  proof (induction xs arbitrary: w0)
    case Nil
    show ?case by (simp add: attempted_def)
  next
    case (Cons x xs)
    obtain l r where x: "x = (l, r)" by (cases x)
    obtain evs where "trace (foldl (\<lambda>w' (local_path, relative_path). emit (LogFailedItem local_path relative_path) w') (emit (LogFailedItem l r) w0) xs)
          = trace (emit (LogFailedItem l r) w0) @ evs" "attempted evs = []"
      using Cons.IH by blast
    then have "trace (foldl (\<lambda>w' (local_path, relative_path). emit (LogFailedItem local_path relative_path) w') w0 (x # xs))
       = trace w0 @ (LogFailedItem l r # evs) \<and> attempted (LogFailedItem l r # evs) = []"
      by (simp add: x attempted_def)
    then show ?case by blast
  qed
  from this [of "emit LogFailedHeader w" "failed_files res"]
  obtain evs where "trace (foldl (\<lambda>w' (local_path, relative_path). emit (LogFailedItem local_path relative_path) w') (emit LogFailedHeader w) (failed_files res))
          = trace w @ (LogFailedHeader # evs)" "attempted (LogFailedHeader # evs) = []"
    by (auto simp: attempted_def)
  then show ?thesis
    by (cases "0 < failed res") (auto simp: log_failures_def attempted_def)
qed

lemma upload_files_batch_trace:
  "\<exists>evs. trace (snd (upload_files_batch self items w)) = trace w @ evs \<and> attempted evs = map fst items"
proof -
  let ?init = "\<lparr>total = length items, success = 0, failed = 0, failed_files = []\<rparr>"
  let ?w = "emit (LogBatchStart (length items)) w"
  obtain res w' where bl: "batch_loop self items ?init ?w = (Inr res, w')"
    using batch_loop_acc [of self items ?init ?w] by blast
  obtain evs where evs: "trace w' = trace ?w @ evs" "attempted evs = map fst items"
    using batch_loop_trace [of self items ?init ?w] by (auto simp: bl)
  obtain evs' where evs': "trace (log_failures res (emit (LogBatchDone (success res) (failed res)) w'))
      = trace (emit (LogBatchDone (success res) (failed res)) w') @ evs'" "attempted evs' = []"
    using log_failures_trace by blast
  have "trace (snd (upload_files_batch self items w))
      = trace w @ ([LogBatchStart (length items)] @ evs @ [LogBatchDone (success res) (failed res)] @ evs')"
    by (simp add: upload_files_batch_def bl evs evs')
  moreover have "attempted ([LogBatchStart (length items)] @ evs @ [LogBatchDone (success res) (failed res)] @ evs') = map fst items"
    using evs evs' by (simp add: attempted_def)
  ultimately show ?thesis by blast
qed

lemma batch_three:
  assumes v1: "validate_file_path w l1" and v2: "\<not> validate_file_path w l2"
    and v3: "validate_file_path w l3" and nf: "set (take 2 (faults w)) \<subseteq> {None}"
  shows "fst (upload_files_batch self [(l1, r1), (l2, r2), (l3, r3)] w) =
           Inr \<lparr>total = 3, success = 2, failed = 1, failed_files = [(l2, r2)]\<rparr>"
proof -
  let ?w0 = "emit (LogBatchStart 3) w"
  have f1: "set (take 1 (faults ?w0)) \<subseteq> {None}"
    using nf by (cases "faults w") auto
  have f3: "set (take 1 (tl (faults ?w0))) \<subseteq> {None}"
    using nf by (cases "faults w"; cases "tl (faults w)") auto
  obtain b1 w1 where u1: "upload_file self l1 r1 ?w0 = (Inr b1, w1)" by (rule upload_file_cases)
  have b1: "b1" and fw1: "faults w1 = tl (faults ?w0)"
    using upload_file_ok [of ?w0 l1 self r1] v1 f1 by (simp_all add: u1 validate_file_path_def)
  have e1: "fs w1 = fs w" "host_os w1 = host_os w"
    using upload_file_env [of self l1 r1 ?w0] by (simp_all add: u1)
  have "\<not> validate_file_path w1 l2" using v2 e1 by (simp add: validate_file_path_def)
  then have u2: "upload_file self l2 r2 w1 = (Inr False, emit (LogFileInvalid l2) w1)"
    by (rule upload_file_invalid)
  let ?w2 = "emit (LogFileInvalid l2) w1"
  obtain b3 w3 where u3: "upload_file self l3 r3 ?w2 = (Inr b3, w3)" by (rule upload_file_cases)
  have "validate_file_path ?w2 l3" using v3 e1 by (simp add: validate_file_path_def)
  moreover have "set (take 1 (faults ?w2)) \<subseteq> {None}" using f3 fw1 by simp
  ultimately have b3: "b3" using upload_file_ok [of ?w2 l3 self r3] by (simp add: u3)
  show ?thesis
    using b1 b3 u1 u2 u3 by (simp add: upload_files_batch_def numeral_3_eq_3)
qed

lemma ex_valid: "validate_file_path (example_world Posix) ''one.txt''"
  by (simp add: example_world_def example_fs_def validate_file_path_def path_defs)

lemma ex_valid2: "\<not> validate_file_path (example_world Posix) ''two.txt''"
  by (simp add: example_world_def example_fs_def validate_file_path_def path_defs)

lemma ex_valid_three: "validate_file_path (example_world Posix) ''three.txt''"
  by (simp add: world_defs validate_file_path_def path_defs)



section \<open>No exception leaves the upload operations\<close>

lemma os_path_join_nonempty: "a \<noteq> [] \<Longrightarrow> os_path_join h a b \<noteq> []"
  by (simp add: os_path_join_def)

lemma walk_roots_nonempty:
  "root \<noteq> [] \<Longrightarrow> \<forall>t \<in> set (walk_dir h root es). fst t \<noteq> []"
  "root \<noteq> [] \<Longrightarrow> \<forall>t \<in> set (walk_subdirs h root es). fst t \<noteq> []"
  "root \<noteq> [] \<Longrightarrow> \<forall>t \<in> set (walk_node h root d). fst t \<noteq> []"
  by (induction h root es and h root es and h root d rule: walk_dir_walk_subdirs_walk_node.induct)
     (auto simp: os_path_join_nonempty)

lemma os_path_relpath_returns:
  "path \<noteq> [] \<Longrightarrow> \<exists>rel. os_path_relpath h path start = Inr rel"
  by (simp add: os_path_relpath_def Let_def)

lemma files_loop_returns:
  "root \<noteq> [] \<Longrightarrow> \<exists>ms. files_loop h d base root fl acc = Inr ms"
proof (induction fl arbitrary: acc)
  case Nil
  show ?case by simp
next
  case (Cons f fl)
  have "os_path_join h root f \<noteq> []" using Cons.prems by (rule os_path_join_nonempty)
  then obtain rel where "os_path_relpath h (os_path_join h root f) d = Inr rel"
    using os_path_relpath_returns by blast
  then show ?case using Cons by (simp add: Let_def)
qed

lemma walk_loop_returns:
  "\<forall>t \<in> set triples. fst t \<noteq> [] \<Longrightarrow> \<exists>ms. walk_loop h d base triples acc = Inr ms"
proof (induction triples arbitrary: acc)
  case Nil
  show ?case by simp
next
  case (Cons t triples)
  obtain root ds fl where t: "t = (root, ds, fl)" by (cases t)
  have "root \<noteq> []" using Cons.prems by (simp add: t)
  then obtain ms where "files_loop h d base root fl acc = Inr ms"
    using files_loop_returns by blast
  then show ?case using Cons by (simp add: t)
qed

lemma os_path_isdir_nonempty: "os_path_isdir w d \<Longrightarrow> d \<noteq> []"
  by (auto simp: os_path_isdir_def lookup_def)

lemma collect_mappings_returns:
  assumes "os_path_isdir w d"
  shows "\<exists>ms. collect_mappings w d base = Inr ms"
proof -
  have "d \<noteq> []" using assms by (rule os_path_isdir_nonempty)
  obtain es where es: "lookup (host_os w) (fs w) d = Some (Directory es)"
    using assms by (auto simp: os_path_isdir_def split: option.splits fnode.splits)
  have "\<forall>t \<in> set (walk_dir (host_os w) d es). fst t \<noteq> []"
    using \<open>d \<noteq> []\<close> by (rule walk_roots_nonempty(1))
  then obtain ms where "walk_loop (host_os w) d base (walk_dir (host_os w) d es) [] = Inr ms"
    using walk_loop_returns by blast
  then show ?thesis by (simp add: collect_mappings_def os_walk_def es del: walk_dir.simps)
qed

lemma upload_files_batch_returns: "\<exists>res. fst (upload_files_batch self items w) = Inr res"
  using upload_files_batch_report by blast

lemma upload_directory_returns: "\<exists>res. fst (upload_directory self d base w) = Inr res"
proof (cases "os_path_isdir w d")
  case False
  then show ?thesis by (simp add: upload_directory_def)
next
  case True
  then obtain ms where "collect_mappings w d base = Inr ms"
    using collect_mappings_returns by blast
  then show ?thesis using True upload_files_batch_returns [of self ms w]
    by (simp add: upload_directory_def)
qed

text \<open>
  C2: \<open>upload_file\<close> returns a boolean for every input and every exception the storage
  client raises, and so do \<open>upload_files_batch\<close> and \<open>upload_directory\<close> return their
  result: none of them raises.  A local path that is not a valid file gives False and the
  log record of the invalid file; an exception of the client in \<^verbatim>\<open>fput_object\<close> gives
  False and, as the last record, the log of that exception.
\<close>

theorem upload_never_raises:
  "(\<exists>b. fst (upload_file self l r w) = Inr b)
   \<and> (\<exists>res. fst (upload_files_batch self items w) = Inr res)
   \<and> (\<exists>res. fst (upload_directory self d base w) = Inr res)
   \<and> (\<not> validate_file_path w1 l1 \<longrightarrow>
        upload_file self l1 r w1 = (Inr False, emit (LogFileInvalid l1) w1))
   \<and> (validate_file_path w2 l2 \<and> faults w2 = Some e # rest \<longrightarrow>
        fst (upload_file self l2 r w2) = Inr False
        \<and> last (trace (snd (upload_file self l2 r w2))) =
            (case e of S3Error m \<Rightarrow> LogUploadS3Failed e | OtherException m \<Rightarrow> LogUploadException e))"
  using upload_file_returns [of self l r w] upload_files_batch_returns [of self items w]
    upload_directory_returns [of self d base w] upload_file_invalid [of w1 l1 self r]
    upload_file_fault [of w2 l2 e rest self r]
  by blast

theorem upload_never_raises_witness:
  "\<not> validate_file_path (example_world Posix) ''two.txt''
   \<and> upload_file example_uploader ''two.txt'' ''docs/two.txt'' (example_world Posix) =
       (Inr False, emit (LogFileInvalid ''two.txt'') (example_world Posix))
   \<and> validate_file_path ((example_world Posix)\<lparr>faults := [Some (OtherException ''timeout'')]\<rparr>) ''one.txt''
   \<and> fst (upload_file example_uploader ''one.txt'' ''docs/two.txt''
        ((example_world Posix)\<lparr>faults := [Some (OtherException ''timeout'')]\<rparr>)) = Inr False"
proof -
  let ?w2 = "(example_world Posix)\<lparr>faults := [Some (OtherException ''timeout'')]\<rparr>"
  have v: "validate_file_path ?w2 ''one.txt''"
    by (simp add: world_defs validate_file_path_def path_defs)
  have f: "faults ?w2 = Some (OtherException ''timeout'') # []" by simp
  show ?thesis
    using v f ex_valid2
      upload_never_raises [where ?w1.0 = "example_world Posix" and ?l1.0 = "''two.txt''"
        and ?w2.0 = ?w2 and ?l2.0 = "''one.txt''" and e = "OtherException ''timeout''"
        and rest = "[]" and self = example_uploader and r = "''docs/two.txt''"]
    by blast
qed

section \<open>ensure\_bucket\_exists\<close>

lemma ensure_present:
  "bucket_name self \<in> set (buckets w) \<Longrightarrow>
   filter is_call (events_since w (snd (ensure_bucket_exists self w))) = [CallBucketExists (bucket_name self)]"
  by (cases "faults w")
     (auto simp: ensure_bucket_exists_def ensure_bucket_try_def bucket_exists_def make_bucket_def
        next_fault_def emit_def events_since_def is_call_def
        split: option.splits py_exn.splits)

lemma ensure_true_present:
  "fst (ensure_bucket_exists self w) = Inr True \<Longrightarrow>
   bucket_name self \<in> set (buckets (snd (ensure_bucket_exists self w)))"
  by (cases "faults w"; cases "tl (faults w)")
     (auto simp: ensure_bucket_exists_def ensure_bucket_try_def bucket_exists_def make_bucket_def
        next_fault_def emit_def
        split: option.splits py_exn.splits if_splits)

lemma ensure_other_exception:
  "faults w = Some (OtherException m) # rest \<Longrightarrow>
   fst (ensure_bucket_exists self w) = Inl (OtherException m)"
  by (simp add: ensure_bucket_exists_def ensure_bucket_try_def bucket_exists_def next_fault_def emit_def)

lemma ensure_s3:
  "faults w = Some (S3Error m) # rest \<Longrightarrow>
   fst (ensure_bucket_exists self w) = Inr False"
  by (simp add: ensure_bucket_exists_def ensure_bucket_try_def bucket_exists_def next_fault_def emit_def)

lemma ensure_env:
  "fs (snd (ensure_bucket_exists self w)) = fs w \<and> host_os (snd (ensure_bucket_exists self w)) = host_os w"
  by (cases "faults w"; cases "tl (faults w)")
     (auto simp: ensure_bucket_exists_def ensure_bucket_try_def bucket_exists_def make_bucket_def
        next_fault_def emit_def
        split: option.splits py_exn.splits if_splits)

text \<open>
  C3: the claim is that \<open>ensure_bucket_exists\<close> returns False on any failure of the
  storage client.  The handler is \<^verbatim>\<open>except S3Error\<close> only: when the bucket check raises
  an exception of another class (here a refused connection) the call raises it to its
  caller instead of returning False.  For an S3Error it does return False
  (\<open>ensure_s3\<close>).
\<close>

theorem ensure_bucket_exists_propagates_other_exception:
  "fst (ensure_bucket_exists example_uploader
     ((example_world Posix)\<lparr>faults := [Some (OtherException ''MaxRetryError: connection refused'')]\<rparr>))
   = Inl (OtherException ''MaxRetryError: connection refused'')"
  by (simp add: ensure_bucket_exists_def ensure_bucket_try_def bucket_exists_def next_fault_def
      emit_def example_world_def example_uploader_def)

text \<open>
  C6: from a state in which the bucket exists, \<open>ensure_bucket_exists\<close> calls the storage
  client once, for the bucket check, and never \<^verbatim>\<open>make_bucket\<close>; and after a call that
  returned True, a second call in succession makes the bucket check only.
\<close>

theorem ensure_bucket_no_second_create:
  "(bucket_name self \<in> set (buckets w) \<longrightarrow>
      filter is_call (events_since w (snd (ensure_bucket_exists self w))) =
        [CallBucketExists (bucket_name self)])
   \<and> (fst (ensure_bucket_exists self w') = Inr True \<longrightarrow>
      filter is_call (events_since (snd (ensure_bucket_exists self w'))
          (snd (ensure_bucket_exists self (snd (ensure_bucket_exists self w'))))) =
        [CallBucketExists (bucket_name self)])"
  using ensure_present [of self w] ensure_true_present [of self w']
    ensure_present [of self "snd (ensure_bucket_exists self w')"]
  by blast

theorem ensure_bucket_no_second_create_witness:
  "bucket_name example_uploader \<in> set (buckets (example_world Posix))
   \<and> filter is_call (events_since (example_world Posix)
        (snd (ensure_bucket_exists example_uploader (example_world Posix)))) =
       [CallBucketExists (bucket_name example_uploader)]
   \<and> fst (ensure_bucket_exists example_uploader ((example_world Posix)\<lparr>buckets := []\<rparr>)) = Inr True
   \<and> filter is_call (events_since
        (snd (ensure_bucket_exists example_uploader ((example_world Posix)\<lparr>buckets := []\<rparr>)))
        (snd (ensure_bucket_exists example_uploader
           (snd (ensure_bucket_exists example_uploader ((example_world Posix)\<lparr>buckets := []\<rparr>)))))) =
       [CallBucketExists (bucket_name example_uploader)]"
proof -
  have a: "bucket_name example_uploader \<in> set (buckets (example_world Posix))"
    by (simp add: world_defs)
  have b: "fst (ensure_bucket_exists example_uploader ((example_world Posix)\<lparr>buckets := []\<rparr>)) = Inr True"
    by (simp add: world_defs gateway_defs ensure_bucket_exists_def ensure_bucket_try_def)
  show ?thesis
    using a b ensure_bucket_no_second_create [where self = example_uploader
        and w = "example_world Posix" and w' = "(example_world Posix)\<lparr>buckets := []\<rparr>"]
    by blast
qed

section \<open>upload\_directory\<close>

lemma example_nt_with_base: "collect_mappings (example_world Nt) ''data'' ''bk'' =
   Inr [(''data'' @ [backslash] @ ''a.pdf'', ''bk/a.pdf''),
        (''data'' @ [backslash] @ ''sub'' @ [backslash] @ ''f.txt'', ''bk/sub/f.txt'')]"
  by (simp add: collect_mappings_def os_walk_def example_world_def example_fs_def path_defs os_path_join_def os_path_relpath_def Let_def replace_backslash_def)

text \<open>
  C4: the claim is that every relative path of the enumeration uses forward slashes on
  any host.  The replacement of backslashes is applied only inside the branch for a
  non-empty base: on a Windows host with an empty base the relative path of a file in a
  subdirectory keeps the backslash of \<^verbatim>\<open>os.path.relpath\<close>.  With the base \<^verbatim>\<open>bk\<close> the
  same tree gives forward slashes (\<open>example_nt_with_base\<close>).
\<close>

theorem upload_directory_keeps_backslashes_on_nt:
  "collect_mappings (example_world Nt) ''data'' [] =
     Inr [(''data'' @ [backslash] @ ''a.pdf'', ''a.pdf''),
          (''data'' @ [backslash] @ ''sub'' @ [backslash] @ ''f.txt'',
           ''sub'' @ [backslash] @ ''f.txt'')]
   \<and> backslash \<in> set (''sub'' @ [backslash] @ ''f.txt'')
   \<and> os_path_isdir (example_world Nt) ''data''"
  by (simp add: collect_mappings_def os_walk_def os_path_isdir_def example_world_def example_fs_def
      path_defs os_path_join_def os_path_relpath_def Let_def)

text \<open>
  C7: for a path that is not a directory, a regular file included,
  \<open>upload_directory\<close> returns the zeroed result, raises nothing, logs the missing directory
  and makes no call of the storage client.
\<close>

theorem upload_directory_rejects_non_directory:
  "(\<not> os_path_isdir w d \<longrightarrow>
      upload_directory self d base w =
        (Inr \<lparr>total = 0, success = 0, failed = 0, failed_files = []\<rparr>, emit (LogDirMissing d) w)
      \<and> filter is_call (events_since w (snd (upload_directory self d base w))) = [])
   \<and> (lookup (host_os w) (fs w) d = Some (RegFile readable n) \<longrightarrow> \<not> os_path_isdir w d)"
  by (simp add: upload_directory_def os_path_isdir_def events_since_def is_call_def)

theorem upload_directory_rejects_non_directory_witness:
  "lookup (host_os (example_world Posix)) (fs (example_world Posix)) ''one.txt'' = Some (RegFile True 10)
   \<and> \<not> os_path_isdir (example_world Posix) ''one.txt''
   \<and> upload_directory example_uploader ''one.txt'' ''backup'' (example_world Posix) =
        (Inr \<lparr>total = 0, success = 0, failed = 0, failed_files = []\<rparr>,
         emit (LogDirMissing ''one.txt'') (example_world Posix))
   \<and> filter is_call (events_since (example_world Posix)
        (snd (upload_directory example_uploader ''one.txt'' ''backup'' (example_world Posix)))) = []"
proof -
  have l: "lookup (host_os (example_world Posix)) (fs (example_world Posix)) ''one.txt'' = Some (RegFile True 10)"
    by (simp add: world_defs path_defs)
  show ?thesis
    using l upload_directory_rejects_non_directory [where w = "example_world Posix"
        and d = "''one.txt''" and readable = True and n = 10 and self = example_uploader
        and base = "''backup''"]
    by blast
qed

section \<open>Key derivation\<close>

lemma digit_char_is_digit: "is_digit (digit_char n)"
proof -
  have "list_all is_digit ''0123456789''" by (simp add: is_digit_def)
  moreover have "n mod 10 < length ''0123456789''" by simp
  ultimately show ?thesis
    unfolding digit_char_def list_all_length by blast
qed

lemma decimal_digits: "list_all is_digit (decimal n)"
  by (induction n rule: decimal.induct) (subst decimal.simps, simp add: digit_char_is_digit)

lemma decimal_length: "0 < k \<Longrightarrow> n < 10 ^ k \<Longrightarrow> length (decimal n) \<le> k"
proof (induction n arbitrary: k rule: decimal.induct)
  case (1 n)
  show ?case
  proof (cases "n < 10")
    case True
    then show ?thesis using "1.prems" by (subst decimal.simps) simp
  next
    case False
    obtain j where k: "k = Suc j" using "1.prems"(1) by (cases k) auto
    have "0 < j" using False "1.prems"(2) k by (cases j) auto
    moreover have "n div 10 < 10 ^ j" using "1.prems"(2) k by (simp add: less_mult_imp_div_less)
    ultimately have "length (decimal (n div 10)) \<le> j" using "1.IH" False by blast
    then show ?thesis using False k by (subst decimal.simps) simp
  qed
qed

lemma zfill_length: "length s \<le> k \<Longrightarrow> length (zfill k s) = k"
  by (simp add: zfill_def)

lemma zero_is_digit: "is_digit (CHR ''0'')"
  by (simp add: is_digit_def)

lemma zfill_digits: "list_all is_digit s \<Longrightarrow> list_all is_digit (zfill k s)"
  by (auto simp: zfill_def zero_is_digit list_all_iff)

lemma YYYYMMDD_shape:
  assumes "valid_date d"
  shows "length (YYYYMMDD d) = 8 \<and> list_all is_digit (YYYYMMDD d)"
proof -
  have y: "year d < 10 ^ 4" and m: "month d < 10 ^ 2" and dd: "day d < 10 ^ 2"
    using assms by (simp_all add: valid_date_def)
  have "length (decimal (year d)) \<le> 4"
    by (rule decimal_length [OF _ y]) simp
  moreover have "length (decimal (month d)) \<le> 2"
    by (rule decimal_length [OF _ m]) simp
  moreover have "length (decimal (day d)) \<le> 2"
    by (rule decimal_length [OF _ dd]) simp
  ultimately show ?thesis
    by (simp add: YYYYMMDD_def zfill_length zfill_digits decimal_digits)
qed

lemma key_form:
  "ComputeObjectKey H basePrefix relativePath now =
     (if basePrefix = [] then [] else basePrefix @ ''/'') @ YYYYMMDD now @ ''/''
       @ H (normalize_separators relativePath) @ extension (normalize_separators relativePath)"
  by (simp add: ComputeObjectKey_def Let_def slash_def)

lemma extension_pdf: "extension (q @ ''.pdf'') = ''.pdf''"
  by (simp add: extension_def basename_def Let_def slash_def dot_def)

lemma normalize_pdf: "normalize_separators (q @ ''.pdf'') = normalize_separators q @ ''.pdf''"
  by (simp add: normalize_separators_def backslash_def slash_def)

lemma key_pdf:
  assumes "suffix ''.pdf'' relativePath"
  shows "suffix ''.pdf'' (ComputeObjectKey H basePrefix relativePath now)"
proof -
  obtain q where "relativePath = q @ ''.pdf''" using assms by (auto simp: suffix_def)
  then have "extension (normalize_separators relativePath) = ''.pdf''"
    by (simp add: normalize_pdf extension_pdf)
  then show ?thesis
    by (simp add: key_form suffix_def)
qed

lemma rev_takeWhile_suffix: "suffix (rev (takeWhile P (rev xs))) xs"
proof -
  have "rev (rev xs) = rev (takeWhile P (rev xs) @ dropWhile P (rev xs))" by simp
  then have "xs = rev (dropWhile P (rev xs)) @ rev (takeWhile P (rev xs))"
    by (simp only: rev_append rev_rev_ident)
  then show ?thesis by (rule suffixI)
qed

lemma rev_takeWhile_suffix_Cons:
  assumes "x \<in> set xs"
  shows "suffix (x # rev (takeWhile (\<lambda>c. c \<noteq> x) (rev xs))) xs"
proof -
  let ?P = "\<lambda>c. c \<noteq> x"
  have ne: "dropWhile ?P (rev xs) \<noteq> []" using assms by (simp add: dropWhile_eq_Nil_conv)
  then have "\<not> ?P (hd (dropWhile ?P (rev xs)))" by (rule hd_dropWhile)
  with ne obtain rest where d: "dropWhile ?P (rev xs) = x # rest"
    by (cases "dropWhile ?P (rev xs)") auto
  have "rev (rev xs) = rev (takeWhile ?P (rev xs) @ dropWhile ?P (rev xs))" by simp
  then have "xs = rev rest @ (x # rev (takeWhile ?P (rev xs)))"
    by (simp only: d rev_append rev_rev_ident rev.simps append_assoc append_Cons append_Nil)
  then show ?thesis by (rule suffixI)
qed

lemma extension_suffix: "suffix (extension p) p"
proof -
  have b: "suffix (basename p) p"
    unfolding basename_def by (rule rev_takeWhile_suffix)
  have "suffix (extension p) (basename p)"
    by (simp add: extension_def Let_def rev_takeWhile_suffix_Cons)
  then show ?thesis using b by (rule suffix_order.trans)
qed

lemma ex_key: "ComputeObjectKey example_digest ''uploads'' ''docs/report.pdf'' example_date = ''uploads/20250904/h15.pdf''"
  by (simp add: ComputeObjectKey_def Let_def YYYYMMDD_def zfill_def decimal.simps digit_char_def
      normalize_separators_def extension_def basename_def key_join.simps world_defs path_defs)



text \<open>
  C9: the key is the base prefix and a slash (omitted when the prefix is empty), the date
  as YYYYMMDD, a slash, the hash of the normalised relative path and the extension of that
  path; the extension is a suffix of the path; for a valid date the partition is eight
  decimal digits; and a relative path that ends in \<^verbatim>\<open>.pdf\<close> gives a key that ends in
  \<^verbatim>\<open>.pdf\<close>.
\<close>

theorem object_key_form:
  "ComputeObjectKey H basePrefix relativePath now =
     (if basePrefix = [] then [] else basePrefix @ ''/'') @ YYYYMMDD now @ ''/''
       @ H (normalize_separators relativePath) @ extension (normalize_separators relativePath)
   \<and> suffix (extension (normalize_separators relativePath)) (normalize_separators relativePath)
   \<and> (valid_date now \<longrightarrow> length (YYYYMMDD now) = 8 \<and> list_all is_digit (YYYYMMDD now))
   \<and> (suffix ''.pdf'' relativePath \<longrightarrow>
        suffix ''.pdf'' (ComputeObjectKey H basePrefix relativePath now))"
  using key_form [of H basePrefix relativePath now]
    extension_suffix [of "normalize_separators relativePath"]
    YYYYMMDD_shape [of now] key_pdf [of relativePath H basePrefix now]
  by blast

theorem object_key_form_witness:
  "valid_date example_date
   \<and> suffix ''.pdf'' ''docs/report.pdf''
   \<and> length (YYYYMMDD example_date) = 8
   \<and> suffix ''.pdf'' (ComputeObjectKey example_digest ''uploads'' ''docs/report.pdf'' example_date)
   \<and> ComputeObjectKey example_digest ''uploads'' ''docs/report.pdf'' example_date =
       ''uploads/20250904/h15.pdf''"
proof -
  have v: "valid_date example_date" by (simp add: valid_date_def example_date_def)
  have s: "suffix ''.pdf'' ''docs/report.pdf''"
    by (rule suffixI [of _ "''docs/report''"]) simp
  show ?thesis
    using v s ex_key object_key_form [where now = example_date
        and relativePath = "''docs/report.pdf''" and H = example_digest
        and basePrefix = "''uploads''"]
    by blast
qed

section \<open>Batch mode of the command line\<close>

lemma parse_files_kept:
  "list_all (\<lambda>f. split_colon f \<noteq> None) fl \<Longrightarrow>
   parse_files w fl acc = Some (acc @ kept_mappings w fl)"
proof (induction fl arbitrary: acc)
  case Nil
  show ?case by (simp add: kept_mappings_def)
next
  case (Cons f fl)
  then obtain l r where s: "split_colon f = Some (l, r)" by auto
  have rest: "list_all (\<lambda>f. split_colon f \<noteq> None) fl" using Cons.prems by simp
  show ?case
    using Cons.IH [OF rest] by (simp add: s kept_mappings_def)
qed

lemma kept_mappings_cong:
  "fs w' = fs w \<Longrightarrow> host_os w' = host_os w \<Longrightarrow> kept_mappings w' fl = kept_mappings w fl"
  by (simp add: kept_mappings_def os_path_exists_def)

lemma batch_failed_subset:
  "fst (upload_files_batch self items w) = Inr res \<Longrightarrow>
   total res = length items \<and> set (failed_files res) \<subseteq> set items"
proof -
  assume "fst (upload_files_batch self items w) = Inr res"
  then have "res = ResultReport (zip items (outcomes self items (emit (LogBatchStart (length items)) w)))"
    using upload_files_batch_report [of self items w] by simp
  then have t: "total res = length items"
    and ff: "failed_files res = map fst (filter (\<lambda>out. \<not> snd out)
         (zip items (outcomes self items (emit (LogBatchStart (length items)) w))))"
    by (simp_all add: ResultReport_def outcomes_length)
  have "set (failed_files res) \<subseteq> set items"
    unfolding ff by (auto dest: set_zip_leftD)
  with t show ?thesis by simp
qed

lemma main_batch:
  assumes m: "mode a = Batch" and f: "files a = Some fl" and ne: "fl \<noteq> []"
    and wf: "list_all (\<lambda>f. split_colon f \<noteq> None) fl"
    and e: "ensure_bucket_exists up w = (Inr True, w1)"
  shows "parse_files w1 fl [] = Some (kept_mappings w fl)"
    and "kept_mappings w fl = [] \<Longrightarrow> fst (main (Inr up) a w) = False"
    and "kept_mappings w fl \<noteq> [] \<Longrightarrow>
         \<exists>res. fst (upload_files_batch up (kept_mappings w fl) w1) = Inr res
           \<and> total res = length (kept_mappings w fl)
           \<and> set (failed_files res) \<subseteq> set (kept_mappings w fl)
           \<and> fst (main (Inr up) a w) = (failed res = 0)"
proof -
  have env: "fs w1 = fs w" "host_os w1 = host_os w"
    using ensure_env [of up w] by (simp_all add: e)
  have k: "kept_mappings w1 fl = kept_mappings w fl"
    using env by (rule kept_mappings_cong)
  show p: "parse_files w1 fl [] = Some (kept_mappings w fl)"
    using parse_files_kept [OF wf, of w1 "[]"] k by simp
  show "kept_mappings w fl = [] \<Longrightarrow> fst (main (Inr up) a w) = False"
    using m f ne p e by (simp add: main_def main_try_def absent_def)
  show "kept_mappings w fl \<noteq> [] \<Longrightarrow>
         \<exists>res. fst (upload_files_batch up (kept_mappings w fl) w1) = Inr res
           \<and> total res = length (kept_mappings w fl)
           \<and> set (failed_files res) \<subseteq> set (kept_mappings w fl)
           \<and> fst (main (Inr up) a w) = (failed res = 0)"
  proof -
    assume nk: "kept_mappings w fl \<noteq> []"
    obtain res where r: "fst (upload_files_batch up (kept_mappings w fl) w1) = Inr res"
      using upload_files_batch_report [of up "kept_mappings w fl" w1] by blast
    then obtain w2 where r2: "upload_files_batch up (kept_mappings w fl) w1 = (Inr res, w2)"
      by (cases "upload_files_batch up (kept_mappings w fl) w1") simp
    have "fst (main (Inr up) a w) = (failed res = 0)"
      using m f ne p e nk r2
      by (simp add: main_def main_try_def absent_def upload_multiple_files_def)
    then show ?thesis using r batch_failed_subset [OF r]
      by (intro exI [of _ res]) simp
  qed
qed

lemma ex_main: "fst (main (Inr example_uploader) example_batch_args (example_world Posix)) = True"
  by (simp add: main_def main_try_def absent_def example_batch_args_def split_colon_def
      os_path_exists_def upload_multiple_files_def upload_files_batch_def log_failures_def
      ComputeObjectKey_def Let_def YYYYMMDD_def zfill_def decimal.simps digit_char_def
      normalize_separators_def extension_def basename_def
      world_defs gateway_defs uploader_defs path_defs)



end
